theory Spec2Isabelle
  imports Main "HOL-Library.Multiset"
begin

section \<open>Python values\<close>

text \<open>
  The repository (\<^verbatim>\<open>src/espn_data_reader.py\<close>, class \<^verbatim>\<open>ESPNDataRepository\<close>) reads CSV
  tables into pandas frames and looks events up in them. A table cell is an integer, a
  string, or the missing value NaN; cells with a fractional part are not part of the
  model. Where pandas holds the integers of a column as doubles, the value the code reads
  is the double of the integer (see \<open>row_str\<close> below). A string is a list of
  characters read as code points below 256.

  Exceptions are values of \<open>error\<close>; each constructor names the place that raises it.
  The conversions are those of CPython 3.11 and later, where \<^verbatim>\<open>str(n)\<close> and \<^verbatim>\<open>int(s)\<close>
  raise ValueError beyond 4300 digits (\<^verbatim>\<open>sys.get_int_max_str_digits()\<close>).
\<close>

datatype error =
    RootMissing           \<comment> \<open>FileNotFoundError of \<^verbatim>\<open>__init__\<close>\<close>
  | UnknownTable          \<comment> \<open>KeyError of \<^verbatim>\<open>_load_base_table\<close>: name not in BASE_TABLES\<close>
  | FileNotFound          \<comment> \<open>FileNotFoundError of \<^verbatim>\<open>_load_base_table\<close>\<close>
  | FolderNotFound        \<comment> \<open>FileNotFoundError of \<^verbatim>\<open>_load_files_by_pattern\<close>\<close>
  | ReadError             \<comment> \<open>\<^verbatim>\<open>pd.read_csv\<close> or \<^verbatim>\<open>zipfile.ZipFile\<close> cannot decode the file\<close>
  | EventNotInFixtures    \<comment> \<open>KeyError of \<^verbatim>\<open>_derive_season_league_code\<close>: no fixture row\<close>
  | MissingColumn string  \<comment> \<open>KeyError of pandas: a column that is read is absent\<close>
  | ValueError            \<comment> \<open>\<^verbatim>\<open>int(s)\<close>, \<^verbatim>\<open>float(s)\<close> on a malformed string, \<^verbatim>\<open>int(nan)\<close>,
                              \<^verbatim>\<open>str(n)\<close> and \<^verbatim>\<open>int(s)\<close> beyond the digit limit\<close>
  | OverflowError         \<comment> \<open>\<^verbatim>\<open>int(inf)\<close>, \<^verbatim>\<open>float(n)\<close> for an integer beyond the doubles\<close>
  | DateError             \<comment> \<open>\<^verbatim>\<open>pd.to_datetime\<close> cannot give a year\<close>

datatype cell = CInt int | CStr string | CNaN

subsection \<open>Strings\<close>

definition is_space :: "char \<Rightarrow> bool" where
  \<comment> \<open>the code points below 256 that \<^verbatim>\<open>float(s)\<close> and \<^verbatim>\<open>int(s)\<close> strip as whitespace\<close>
  "is_space c = ((of_char c :: nat) \<in> {9, 10, 11, 12, 13, 32, 133, 160})"

definition strip :: "string \<Rightarrow> string" where
  "strip s = rev (dropWhile is_space (rev (dropWhile is_space s)))"

definition lower_char :: "char \<Rightarrow> char" where
  "lower_char c =
     (let n = (of_char c :: nat)
      in if (65 \<le> n \<and> n \<le> 90) \<or> (192 \<le> n \<and> n \<le> 222 \<and> n \<noteq> 215)
         then char_of (n + 32) else c)"

definition lower :: "string \<Rightarrow> string" where
  "lower s = map lower_char s"

definition startswith :: "string \<Rightarrow> string \<Rightarrow> bool" where
  "startswith s p = (take (length p) s = p)"

definition endswith :: "string \<Rightarrow> string \<Rightarrow> bool" where
  "endswith s p = (length p \<le> length s \<and> drop (length s - length p) s = p)"

definition is_digit :: "char \<Rightarrow> bool" where
  "is_digit c = (c \<in> set ''0123456789'')"

definition digit_val :: "char \<Rightarrow> nat" where
  "digit_val c = of_char c - 48"

definition digit_char :: "nat \<Rightarrow> char" where
  "digit_char d = char_of (48 + d)"

text \<open>
  A digit part of a Python numeric literal: digits, with single underscores allowed
  between two digits.
\<close>

fun digitpart :: "string \<Rightarrow> bool" where
  "digitpart [] = False"
| "digitpart [c] = is_digit c"
| "digitpart (c # d # cs) =
     (is_digit c \<and> (if d = CHR ''_'' then cs \<noteq> [] \<and> digitpart cs else digitpart (d # cs)))"

definition digits_value :: "string \<Rightarrow> nat" where
  "digits_value s = foldl (\<lambda>a c. 10 * a + digit_val c) 0 (filter (\<lambda>c. c \<noteq> CHR ''_'') s)"

definition split_sign :: "string \<Rightarrow> bool \<times> string" where
  \<comment> \<open>an optional leading sign: (negative, rest)\<close>
  "split_sign s =
     (case s of
        [] \<Rightarrow> (False, [])
      | c # cs \<Rightarrow> if c = CHR ''-'' then (True, cs) else if c = CHR ''+'' then (False, cs)
                 else (False, s))"

subsection \<open>\<^verbatim>\<open>str(n)\<close> and \<^verbatim>\<open>int(s)\<close>\<close>

function digits_of :: "nat \<Rightarrow> string" where
  "digits_of n = (if n < 10 then [digit_char n] else digits_of (n div 10) @ [digit_char (n mod 10)])"
  by pat_completeness auto
termination
  by (relation "measure id") auto

declare digits_of.simps [simp del]

definition decimal :: "int \<Rightarrow> string" where
  \<comment> \<open>the decimal digits of an integer, with its sign\<close>
  "decimal n = (if n < 0 then CHR ''-'' # digits_of (nat (- n)) else digits_of (nat n))"

definition max_str_digits :: nat where
  "max_str_digits = 4300"

definition py_str_int :: "int \<Rightarrow> error + string" where
  \<comment> \<open>\<^verbatim>\<open>str(n)\<close> of an integer\<close>
  "py_str_int n =
     (if max_str_digits < length (digits_of (nat \<bar>n\<bar>)) then Inl ValueError else Inr (decimal n))"

definition py_str :: "cell \<Rightarrow> error + string" where
  \<comment> \<open>\<^verbatim>\<open>str(x)\<close>\<close>
  "py_str x = (case x of CInt n \<Rightarrow> py_str_int n | CStr s \<Rightarrow> Inr s | CNaN \<Rightarrow> Inr ''nan'')"

definition py_int_of_str :: "string \<Rightarrow> error + int" where
  \<comment> \<open>\<^verbatim>\<open>int(s)\<close> in base 10\<close>
  "py_int_of_str s =
     (let (neg, u) = split_sign (strip s)
      in if digitpart u \<and> length (filter (\<lambda>c. c \<noteq> CHR ''_'') u) \<le> max_str_digits
         then Inr (if neg then - int (digits_value u) else int (digits_value u))
         else Inl ValueError)"

subsection \<open>\<^verbatim>\<open>float(x)\<close> and \<^verbatim>\<open>int(f)\<close>\<close>

text \<open>
  A double is NaN, an infinity, or \<open>\<plusminus> m * 2 ^ e\<close> with \<open>m < 2 ^ 53\<close>.
  \<open>to_double num den\<close> rounds the positive fraction \<open>num / den\<close> to the nearest double,
  ties to even, as CPython does for strings and for integers; None is overflow.
\<close>

datatype pyfloat = Finite bool nat int | Infinity bool | NotANumber

function bit_length :: "nat \<Rightarrow> nat" where
  "bit_length n = (if n = 0 then 0 else Suc (bit_length (n div 2)))"
  by pat_completeness auto
termination
  by (relation "measure id") auto

declare bit_length.simps [simp del]

definition round_half_even :: "nat \<Rightarrow> nat \<Rightarrow> nat" where
  "round_half_even n d =
     (let q = n div d; r = n mod d
      in if 2 * r < d then q else if d < 2 * r then q + 1 else if even q then q else q + 1)"

definition pow2_le :: "int \<Rightarrow> nat \<Rightarrow> nat \<Rightarrow> bool" where
  \<comment> \<open>\<open>2 ^ k \<le> num / den\<close>\<close>
  "pow2_le k num den =
     (if 0 \<le> k then 2 ^ nat k * den \<le> num else den \<le> num * 2 ^ nat (- k))"

definition to_double :: "nat \<Rightarrow> nat \<Rightarrow> (nat \<times> int) option" where
  "to_double num den =
     (if num = 0 then Some (0, 0)
      else
        let k0 = int (bit_length num) - int (bit_length den);
            k = (if pow2_le k0 num den then k0 else k0 - 1);
            e = max (k - 52) (- 1074);
            m = (if 0 \<le> e then round_half_even num (den * 2 ^ nat e)
                 else round_half_even (num * 2 ^ nat (- e)) den)
        in if 0 \<le> e \<and> 2 ^ 1024 \<le> m * 2 ^ nat e then None else Some (m, e))"

definition parse_exponent :: "string \<Rightarrow> int option" where
  \<comment> \<open>what follows the \<^verbatim>\<open>e\<close> of a float literal\<close>
  "parse_exponent s =
     (let (neg, u) = split_sign s
      in if digitpart u then Some (if neg then - int (digits_value u) else int (digits_value u))
         else None)"

definition parse_number :: "string \<Rightarrow> (nat \<times> int) option" where
  \<comment> \<open>an unsigned decimal literal \<open>m * 10 ^ e\<close>: digits, a point, an exponent\<close>
  "parse_number s =
     (let is_e = (\<lambda>c. c = CHR ''e'' \<or> c = CHR ''E'');
          mant = takeWhile (\<lambda>c. \<not> is_e c) s;
          rest = dropWhile (\<lambda>c. \<not> is_e c) s;
          ex = (if rest = [] then Some 0 else parse_exponent (tl rest));
          ip = takeWhile (\<lambda>c. c \<noteq> CHR ''.'') mant;
          r2 = dropWhile (\<lambda>c. c \<noteq> CHR ''.'') mant;
          fp = tl r2;
          fd = filter (\<lambda>c. c \<noteq> CHR ''_'') fp
      in case ex of
           None \<Rightarrow> None
         | Some e \<Rightarrow>
             if r2 = [] then (if digitpart ip then Some (digits_value ip, e) else None)
             else if (ip = [] \<or> digitpart ip) \<and> (fp = [] \<or> digitpart fp) \<and> \<not> (ip = [] \<and> fp = [])
             then Some (digits_value (ip @ fp), e - int (length fd))
             else None)"

definition py_float_of_str :: "string \<Rightarrow> error + pyfloat" where
  "py_float_of_str s =
     (let (neg, u) = split_sign (strip s); l = lower u
      in if l = ''inf'' \<or> l = ''infinity'' then Inr (Infinity neg)
         else if l = ''nan'' then Inr NotANumber
         else case parse_number u of
                None \<Rightarrow> Inl ValueError
              | Some (m, e) \<Rightarrow>
                  (case (if 0 \<le> e then to_double (m * 10 ^ nat e) 1
                         else to_double m (10 ^ nat (- e))) of
                     None \<Rightarrow> Inr (Infinity neg)
                   | Some (b, x) \<Rightarrow> Inr (Finite neg b x)))"

definition py_float :: "cell \<Rightarrow> error + pyfloat" where
  "py_float x =
     (case x of
        CInt n \<Rightarrow>
          (case to_double (nat \<bar>n\<bar>) 1 of
             None \<Rightarrow> Inl OverflowError
           | Some (b, e) \<Rightarrow> Inr (Finite (n < 0) b e))
      | CStr s \<Rightarrow> py_float_of_str s
      | CNaN \<Rightarrow> Inr NotANumber)"

definition py_int_of_float :: "pyfloat \<Rightarrow> error + int" where
  \<comment> \<open>\<^verbatim>\<open>int(f)\<close> truncates towards zero\<close>
  "py_int_of_float f =
     (case f of
        Finite neg m e \<Rightarrow>
          (let a = (if 0 \<le> e then int m * 2 ^ nat e else int (m div 2 ^ nat (- e)))
           in Inr (if neg then - a else a))
      | Infinity _ \<Rightarrow> Inl OverflowError
      | NotANumber \<Rightarrow> Inl ValueError)"

subsection \<open>\<^verbatim>\<open>_id_str\<close>\<close>

definition id_str_try :: "cell \<Rightarrow> error + string" where
  \<comment> \<open>the body of the \<^verbatim>\<open>try\<close>: \<^verbatim>\<open>str(int(float(x)))\<close>\<close>
  "id_str_try x =
     (case py_float x of
        Inl e \<Rightarrow> Inl e
      | Inr f \<Rightarrow> (case py_int_of_float f of Inl e \<Rightarrow> Inl e | Inr n \<Rightarrow> py_str_int n))"

definition id_str :: "cell \<Rightarrow> error + string" where
  \<comment> \<open>\<^verbatim>\<open>except Exception: return str(x)\<close>, which is outside the \<^verbatim>\<open>try\<close>\<close>
  "id_str x = (case id_str_try x of Inr s \<Rightarrow> Inr s | Inl _ \<Rightarrow> py_str x)"

section \<open>Tables and files\<close>

text \<open>
  A frame is its column names and its rows; a row gives each column its cell, and a
  column a row does not mention reads as NaN (as \<^verbatim>\<open>read_csv\<close> pads a short line).
\<close>

type_synonym row = "(string \<times> cell) list"

record dataframe =
  columns :: "string list"
  rows :: "row list"

definition empty_frame :: dataframe where
  \<comment> \<open>\<^verbatim>\<open>pd.DataFrame()\<close>\<close>
  "empty_frame = \<lparr>columns = [], rows = []\<rparr>"

definition is_empty :: "dataframe \<Rightarrow> bool" where
  \<comment> \<open>\<^verbatim>\<open>df.empty\<close>: an axis of length 0\<close>
  "is_empty df = (columns df = [] \<or> rows df = [])"

definition cell_at :: "row \<Rightarrow> string \<Rightarrow> cell" where
  "cell_at r c = (case map_of r c of Some v \<Rightarrow> v | None \<Rightarrow> CNaN)"

definition pad_row :: "string list \<Rightarrow> row \<Rightarrow> row" where
  "pad_row cols r = map (\<lambda>c. (c, cell_at r c)) cols"

definition union_columns :: "dataframe list \<Rightarrow> string list" where
  \<comment> \<open>the columns of all frames, each once, in order of first appearance\<close>
  "union_columns dfs = rev (remdups (rev (concat (map columns dfs))))"

definition pd_concat :: "dataframe list \<Rightarrow> dataframe" where
  \<comment> \<open>\<^verbatim>\<open>pd.concat(data_frames, ignore_index=True)\<close>\<close>
  "pd_concat dfs =
     \<lparr>columns = union_columns dfs,
      rows = concat (map (\<lambda>d. map (pad_row (union_columns dfs)) (rows d)) dfs)\<rparr>"

text \<open>
  A file on disk is given by what the readers make of it: a CSV that \<^verbatim>\<open>read_csv\<close> parses
  into a frame, a ZIP archive with its members in \<^verbatim>\<open>namelist()\<close> order (a member that
  does not parse is None), or a file neither reader accepts.
\<close>

datatype disk_file = CsvFile dataframe | ZipArchive "(string \<times> dataframe option) list" | Unreadable

definition read_csv :: "disk_file \<Rightarrow> error + dataframe" where
  "read_csv f = (case f of CsvFile df \<Rightarrow> Inr df | _ \<Rightarrow> Inl ReadError)"

definition zip_members :: "disk_file \<Rightarrow> error + (string \<times> dataframe option) list" where
  "zip_members f = (case f of ZipArchive ms \<Rightarrow> Inr ms | _ \<Rightarrow> Inl ReadError)"

section \<open>The repository\<close>

text \<open>
  The state of an \<^verbatim>\<open>ESPNDataRepository\<close>: the files under \<^verbatim>\<open>root_dir/base_data\<close>, the
  sub-folders of \<^verbatim>\<open>root_dir\<close> with their entries in the order \<^verbatim>\<open>os.listdir\<close> gives them,
  the \<^verbatim>\<open>autocache\<close> flag, and \<^verbatim>\<open>_cache\<close>. Frames are objects: \<open>heap\<close> maps a reference
  to the frame stored there, \<open>fresh\<close> is the next unused reference, and \<open>_cache\<close> maps
  a table name to a reference. \<open>reads\<close> counts the calls of \<^verbatim>\<open>pd.read_csv\<close> on base tables.
\<close>

record repo =
  base_data :: "string \<rightharpoonup> disk_file"
  folders :: "string \<rightharpoonup> (string \<times> disk_file) list"
  autocache :: bool
  cache :: "string \<rightharpoonup> nat"
  heap :: "nat \<Rightarrow> dataframe"
  fresh :: nat
  reads :: nat

definition init :: "(string \<rightharpoonup> disk_file) \<Rightarrow> (string \<rightharpoonup> (string \<times> disk_file) list) \<Rightarrow> bool \<Rightarrow> repo" where
  \<comment> \<open>\<^verbatim>\<open>__init__\<close> on an existing root directory\<close>
  "init bd fs ac =
     \<lparr>base_data = bd, folders = fs, autocache = ac, cache = Map.empty,
      heap = (\<lambda>_. empty_frame), fresh = 0, reads = 0\<rparr>"

subsection \<open>\<^verbatim>\<open>_load_files_by_pattern\<close>\<close>

fun read_members :: "(string \<times> dataframe option) list \<Rightarrow> error + dataframe list" where
  "read_members [] = Inr []"
| "read_members ((inner_name, f) # ms) =
     (if \<not> endswith (lower inner_name) ''.csv'' then read_members ms
      else case f of
             None \<Rightarrow> Inl ReadError
           | Some df \<Rightarrow>
               (case read_members ms of Inl e \<Rightarrow> Inl e | Inr dfs \<Rightarrow> Inr (df # dfs)))"

fun read_entries :: "string \<Rightarrow> (string \<times> disk_file) list \<Rightarrow> error + dataframe list" where
  "read_entries pattern [] = Inr []"
| "read_entries pattern ((fname, f) # es) =
     (if \<not> startswith fname pattern then read_entries pattern es
      else if endswith (lower fname) ''.csv'' then
        (case read_csv f of
           Inl e \<Rightarrow> Inl e
         | Inr df \<Rightarrow>
             (case read_entries pattern es of Inl e \<Rightarrow> Inl e | Inr dfs \<Rightarrow> Inr (df # dfs)))
      else if endswith (lower fname) ''.zip'' then
        (case zip_members f of
           Inl e \<Rightarrow> Inl e
         | Inr ms \<Rightarrow>
             (case read_members ms of
                Inl e \<Rightarrow> Inl e
              | Inr dfs1 \<Rightarrow>
                  (case read_entries pattern es of
                     Inl e \<Rightarrow> Inl e
                   | Inr dfs \<Rightarrow> Inr (dfs1 @ dfs))))
      else read_entries pattern es)"

definition load_files_by_pattern :: "repo \<Rightarrow> string \<Rightarrow> string \<Rightarrow> error + dataframe" where
  "load_files_by_pattern st subfolder pattern =
     (case folders st subfolder of
        None \<Rightarrow> Inl FolderNotFound
      | Some es \<Rightarrow>
          (case read_entries pattern es of
             Inl e \<Rightarrow> Inl e
           | Inr data_frames \<Rightarrow>
               Inr (if data_frames \<noteq> [] then pd_concat data_frames else empty_frame)))"

subsection \<open>\<^verbatim>\<open>_load_base_table\<close> and the base tables\<close>

definition BASE_TABLES :: "string \<rightharpoonup> string" where
  "BASE_TABLES = map_of
     [(''fixtures'', ''fixtures.csv''), (''teams'', ''teams.csv''), (''players'', ''players.csv''),
      (''leagues'', ''leagues.csv''), (''venues'', ''venues.csv''),
      (''team_stats'', ''teamStats.csv''), (''standings'', ''standings.csv''),
      (''team_roster'', ''teamRoster.csv''), (''status'', ''status.csv'')]"

definition alloc :: "dataframe \<Rightarrow> repo \<Rightarrow> nat \<times> repo" where
  \<comment> \<open>a new frame object: \<^verbatim>\<open>pd.read_csv\<close> and \<^verbatim>\<open>.copy()\<close> make one\<close>
  "alloc d st = (fresh st, st\<lparr>heap := (heap st)(fresh st := d), fresh := Suc (fresh st)\<rparr>)"

definition load_base_table :: "string \<Rightarrow> repo \<Rightarrow> (error + nat) \<times> repo" where
  "load_base_table name st =
     (case cache st name of
        Some a \<Rightarrow> (let (a', st') = alloc (heap st a) st in (Inr a', st'))
      | None \<Rightarrow>
          (case BASE_TABLES name of
             None \<Rightarrow> (Inl UnknownTable, st)
           | Some fname \<Rightarrow>
               (case base_data st fname of
                  None \<Rightarrow> (Inl FileNotFound, st)
                | Some f \<Rightarrow>
                    (case read_csv f of
                       Inl e \<Rightarrow> (Inl e, st\<lparr>reads := Suc (reads st)\<rparr>)
                     | Inr d \<Rightarrow>
                         (let (df, st1) = alloc d (st\<lparr>reads := Suc (reads st)\<rparr>);
                              st2 = (if autocache st1 then st1\<lparr>cache := (cache st1)(name \<mapsto> df)\<rparr>
                                     else st1);
                              (a', st3) = alloc (heap st2 df) st2
                          in (Inr a', st3))))))"

definition frame_of :: "(error + nat) \<times> repo \<Rightarrow> (error + dataframe) \<times> repo" where
  \<comment> \<open>the frame behind a returned reference, for a caller that only reads it\<close>
  "frame_of p = (case p of (Inl e, st) \<Rightarrow> (Inl e, st) | (Inr a, st) \<Rightarrow> (Inr (heap st a), st))"

definition fixtures :: "repo \<Rightarrow> (error + nat) \<times> repo" where
  "fixtures st = load_base_table ''fixtures'' st"

definition teams :: "repo \<Rightarrow> (error + nat) \<times> repo" where
  "teams st = load_base_table ''teams'' st"

definition players :: "repo \<Rightarrow> (error + nat) \<times> repo" where
  "players st = load_base_table ''players'' st"

subsection \<open>\<^verbatim>\<open>_derive_season_league_code\<close>\<close>

text \<open>
  What the resolver asks of pandas is a parameter of the model:
  \<^item> \<open>as_float pd fx c\<close>: whether \<^verbatim>\<open>hit.iloc[0]\<close> hands out the integers of column \<open>c\<close> as
    doubles. pandas does so when the column itself is held as \<^verbatim>\<open>float64\<close> (a blank in it),
    and when every column of the frame is numeric and one of them is \<^verbatim>\<open>float64\<close>;
  \<^item> \<open>float_str pd n\<close>: \<^verbatim>\<open>str\<close> of the double of the integer \<open>n\<close> (\<^verbatim>\<open>'2024.0'\<close> for 2024);
  \<^item> \<open>year_of_date pd fl v\<close>: \<^verbatim>\<open>int(pd.to_datetime(v).year)\<close>, for the cell \<open>v\<close> read as a
    double when \<open>fl\<close> holds.

  \<^verbatim>\<open>_id_str\<close> starts with \<^verbatim>\<open>float(x)\<close>, and the double of the double of an integer is that
  double, so \<^verbatim>\<open>_id_str\<close> of a value read out of a frame is \<open>id_str\<close> of the cell.
\<close>

record pandas =
  as_float :: "dataframe \<Rightarrow> string \<Rightarrow> bool"
  float_str :: "int \<Rightarrow> string"
  year_of_date :: "bool \<Rightarrow> cell \<Rightarrow> error + int"

definition row_str :: "pandas \<Rightarrow> dataframe \<Rightarrow> row \<Rightarrow> string \<Rightarrow> error + string" where
  \<comment> \<open>\<^verbatim>\<open>str(row[c])\<close> for \<^verbatim>\<open>row = hit.iloc[0]\<close>\<close>
  "row_str pd fx r c =
     (case cell_at r c of
        CInt n \<Rightarrow> if as_float pd fx c then Inr (float_str pd n) else py_str_int n
      | x \<Rightarrow> py_str x)"

fun id_strs :: "cell list \<Rightarrow> error + string list" where
  \<comment> \<open>\<^verbatim>\<open>fx[c].map(self._id_str)\<close>: the first value that raises ends the map\<close>
  "id_strs [] = Inr []"
| "id_strs (x # xs) =
     (case id_str x of
        Inl e \<Rightarrow> Inl e
      | Inr s \<Rightarrow> (case id_strs xs of Inl e \<Rightarrow> Inl e | Inr ss \<Rightarrow> Inr (s # ss)))"

fun first_hit :: "dataframe \<Rightarrow> string \<Rightarrow> string list \<Rightarrow> error + row option" where
  "first_hit fx eid [] = Inr None"
| "first_hit fx eid (c # cs) =
     (case id_strs (map (\<lambda>r. cell_at r c) (rows fx)) of
        Inl e \<Rightarrow> Inl e
      | Inr ids \<Rightarrow>
          (case filter (\<lambda>p. snd p = eid) (zip (rows fx) ids) of
             [] \<Rightarrow> first_hit fx eid cs
           | p # _ \<Rightarrow> Inr (Some (fst p))))"

definition candidates :: "dataframe \<Rightarrow> string list" where
  "candidates fx =
     filter (\<lambda>c. c \<in> set (columns fx)) [''eventId'', ''eventid'', ''gameId'', ''id'', ''matchId'']"

definition season_year_of :: "pandas \<Rightarrow> dataframe \<Rightarrow> row \<Rightarrow> error + int" where
  "season_year_of pd fx r =
     (if ''seasonYear'' \<in> set (columns fx) then
        (case id_str (cell_at r ''seasonYear'') of Inl e \<Rightarrow> Inl e | Inr s \<Rightarrow> py_int_of_str s)
      else if ''season'' \<in> set (columns fx) then
        (case row_str pd fx r ''season'' of
           Inl e \<Rightarrow> Inl e
         | Inr sv \<Rightarrow> py_int_of_str (takeWhile (\<lambda>c. c \<noteq> CHR ''-'') sv))
      else if ''date'' \<in> set (columns fx) then
        year_of_date pd (as_float pd fx ''date'') (cell_at r ''date'')
      else Inl (MissingColumn ''date''))"

definition league_code_of :: "pandas \<Rightarrow> dataframe \<Rightarrow> row \<Rightarrow> error + string option" where
  "league_code_of pd fx r =
     (case filter (\<lambda>c. c \<in> set (columns fx)) [''leagueId'', ''midsizeName'', ''league'', ''league_code''] of
        [] \<Rightarrow> Inr None
      | c # _ \<Rightarrow> (case row_str pd fx r c of Inl e \<Rightarrow> Inl e | Inr s \<Rightarrow> Inr (Some s)))"

definition derive_season_league_code ::
  "pandas \<Rightarrow> cell \<Rightarrow> repo \<Rightarrow> (error + int \<times> string option) \<times> repo" where
  "derive_season_league_code pd event_id st =
     (case id_str event_id of
        Inl e \<Rightarrow> (Inl e, st)
      | Inr eid \<Rightarrow>
          (case frame_of (fixtures st) of
             (Inl e, st') \<Rightarrow> (Inl e, st')
           | (Inr fx, st') \<Rightarrow>
               (case first_hit fx eid (candidates fx) of
                  Inl e \<Rightarrow> (Inl e, st')
                | Inr None \<Rightarrow> (Inl EventNotInFixtures, st')
                | Inr (Some r) \<Rightarrow>
                    (case season_year_of pd fx r of
                       Inl e \<Rightarrow> (Inl e, st')
                     | Inr season_year \<Rightarrow>
                         (case league_code_of pd fx r of
                            Inl e \<Rightarrow> (Inl e, st')
                          | Inr league_code \<Rightarrow> (Inr (season_year, league_code), st'))))))"

subsection \<open>The detail accessors\<close>

definition py_eq :: "cell \<Rightarrow> cell \<Rightarrow> bool" where
  \<comment> \<open>\<^verbatim>\<open>==\<close> of a stored value and the given id: NaN equals nothing, a number no string\<close>
  "py_eq a b =
     (case (a, b) of
        (CInt m, CInt n) \<Rightarrow> m = n
      | (CStr s, CStr t) \<Rightarrow> s = t
      | _ \<Rightarrow> False)"

definition partition_prefix :: "string \<Rightarrow> int \<Rightarrow> string option \<Rightarrow> error + string" where
  \<comment> \<open>the f-string \<^verbatim>\<open>f"{kind}_{season_year}_{league_code}"\<close>\<close>
  "partition_prefix kind season_year league_code =
     (case py_str_int season_year of
        Inl e \<Rightarrow> Inl e
      | Inr y \<Rightarrow> Inr (kind @ ''_'' @ y @ ''_'' @ (case league_code of None \<Rightarrow> ''None'' | Some l \<Rightarrow> l)))"

definition for_event ::
  "string \<Rightarrow> string \<Rightarrow> pandas \<Rightarrow> cell \<Rightarrow> repo \<Rightarrow> (error + dataframe) \<times> repo" where
  \<comment> \<open>the body the five accessors share, up to the folder and the file kind\<close>
  "for_event subfolder kind pd event_id st =
     (case derive_season_league_code pd event_id st of
        (Inl e, st') \<Rightarrow> (Inl e, st')
      | (Inr (season_year, league_code), st') \<Rightarrow>
          (case partition_prefix kind season_year league_code of
             Inl e \<Rightarrow> (Inl e, st')
           | Inr prefix \<Rightarrow>
               (case load_files_by_pattern st' subfolder prefix of
                  Inl e \<Rightarrow> (Inl e, st')
                | Inr df \<Rightarrow>
                    (Inr (if \<not> is_empty df \<and> ''eventId'' \<in> set (columns df)
                          then df\<lparr>rows := filter (\<lambda>r. py_eq (cell_at r ''eventId'') event_id) (rows df)\<rparr>
                          else df), st'))))"

definition commentary_for_event :: "pandas \<Rightarrow> cell \<Rightarrow> repo \<Rightarrow> (error + dataframe) \<times> repo" where
  "commentary_for_event = for_event ''commentary_data'' ''commentary''"

definition key_events_for_event :: "pandas \<Rightarrow> cell \<Rightarrow> repo \<Rightarrow> (error + dataframe) \<times> repo" where
  "key_events_for_event = for_event ''keyEvents_data'' ''keyEvents''"

definition lineup_for_event :: "pandas \<Rightarrow> cell \<Rightarrow> repo \<Rightarrow> (error + dataframe) \<times> repo" where
  "lineup_for_event = for_event ''lineup_data'' ''lineup''"

definition player_stats_for_event :: "pandas \<Rightarrow> cell \<Rightarrow> repo \<Rightarrow> (error + dataframe) \<times> repo" where
  "player_stats_for_event = for_event ''playerStats_data'' ''playerStats''"

definition plays_for_event :: "pandas \<Rightarrow> cell \<Rightarrow> repo \<Rightarrow> (error + dataframe) \<times> repo" where
  "plays_for_event = for_event ''plays_data'' ''plays''"

subsection \<open>A caller of the base table store\<close>

text \<open>
  What a caller can do with the store: load a table by name, and edit in place a frame
  it was returned (\<open>Mutate i d\<close> overwrites the \<open>i\<close>-th frame returned so far with \<open>d\<close>).
  \<open>run\<close> keeps the references returned so far.
\<close>

datatype action = Load string | Mutate nat dataframe

fun run :: "action list \<Rightarrow> repo \<times> nat list \<Rightarrow> repo \<times> nat list" where
  "run [] s = s"
| "run (Load name # acts) (st, rs) =
     (case load_base_table name st of
        (Inr a, st') \<Rightarrow> run acts (st', rs @ [a])
      | (Inl e, st') \<Rightarrow> run acts (st', rs))"
| "run (Mutate i d # acts) (st, rs) =
     (if i < length rs then run acts (st\<lparr>heap := (heap st)(rs ! i := d)\<rparr>, rs)
      else run acts (st, rs))"

section \<open>Notions used to state the properties\<close>

definition entry_frames :: "string \<Rightarrow> string \<times> disk_file \<Rightarrow> error + dataframe list" where
  \<comment> \<open>what one directory entry contributes: one pass of the loop over \<^verbatim>\<open>os.listdir\<close>\<close>
  "entry_frames pattern e = read_entries pattern [e]"


section \<open>Example data\<close>

definition commentary_a :: dataframe where
  "commentary_a = \<lparr>columns = [''eventId'', ''text''],
                    rows = [[(''eventId'', CInt 100), (''text'', CStr ''kick off'')]]\<rparr>"

definition commentary_b :: dataframe where
  "commentary_b = \<lparr>columns = [''eventId'', ''text''],
                    rows = [[(''eventId'', CInt 200), (''text'', CStr ''goal'')]]\<rparr>"

definition listing_ab :: "(string \<times> disk_file) list" where
  "listing_ab = [(''commentary_2024_ITA.1_a.csv'', CsvFile commentary_a),
                 (''commentary_2024_ITA.1_b.csv'', CsvFile commentary_b)]"


definition listing_notes :: "(string \<times> disk_file) list" where
  \<comment> \<open>a file with the prefix that is neither CSV nor ZIP, and an archive with a text member\<close>
  "listing_notes =
     [(''commentary_2024_ITA.1_a.csv'', CsvFile commentary_a),
      (''commentary_2024_ITA.1_notes.txt'', Unreadable),
      (''commentary_2024_ITA.1_b.ZIP'',
         ZipArchive [(''README.md'', None), (''b.csv'', Some commentary_b)])]"

definition commentary_repo :: "(string \<times> disk_file) list \<Rightarrow> repo" where
  "commentary_repo es = init Map.empty [''commentary_data'' \<mapsto> es] True"

definition fixtures_table :: dataframe where
  "fixtures_table =
     \<lparr>columns = [''id'', ''season'', ''leagueId''],
      rows = [[(''id'', CInt 100), (''season'', CStr ''2024-2025''), (''leagueId'', CStr ''ITA.1'')]]\<rparr>"

definition commentary_part1 :: dataframe where
  \<comment> \<open>the ids as \<^verbatim>\<open>read_csv\<close> reads the digits 100 and 200: numbers\<close>
  "commentary_part1 =
     \<lparr>columns = [''eventId'', ''text''],
      rows = [[(''eventId'', CInt 100), (''text'', CStr ''kick off'')],
              [(''eventId'', CInt 200), (''text'', CStr ''goal'')]]\<rparr>"

definition commentary_part1_str :: dataframe where
  \<comment> \<open>the same file with its ids stored as strings\<close>
  "commentary_part1_str =
     \<lparr>columns = [''eventId'', ''text''],
      rows = [[(''eventId'', CStr ''100''), (''text'', CStr ''kick off'')],
              [(''eventId'', CStr ''200''), (''text'', CStr ''goal'')]]\<rparr>"

definition scenario_repo :: "dataframe \<Rightarrow> repo" where
  "scenario_repo commentary =
     init [''fixtures.csv'' \<mapsto> CsvFile fixtures_table]
       [''commentary_data'' \<mapsto> [(''commentary_2024_ITA.1_part1.csv'', CsvFile commentary)],
        ''keyEvents_data'' \<mapsto> [], ''lineup_data'' \<mapsto> [], ''playerStats_data'' \<mapsto> [],
        ''plays_data'' \<mapsto> []]
       True"

definition csv_pandas :: pandas where
  \<comment> \<open>pandas on frames it holds with their integers as integers, and on no date\<close>
  "csv_pandas =
     \<lparr>as_float = (\<lambda>fx c. False), float_str = (\<lambda>n. decimal n @ ''.0''),
      year_of_date = (\<lambda>fl v. Inl DateError)\<rparr>"

definition wf :: "repo \<Rightarrow> bool" where
  \<comment> \<open>every cached reference is an object that exists; \<open>init\<close> gives such a state\<close>
  "wf st = (\<forall>a\<in>ran (cache st). a < fresh st)"

definition base_repo :: repo where
  \<comment> \<open>a repository with a teams table, before any access\<close>
  "base_repo =
     init [''teams.csv'' \<mapsto> CsvFile \<lparr>columns = [''teamId'', ''displayName''],
                                          rows = [[(''teamId'', CInt 1), (''displayName'', CStr ''Roma'')]]\<rparr>]
       Map.empty True"

definition caller_inv :: "repo \<times> nat list \<Rightarrow> bool" where
  \<comment> \<open>cached frames exist, and no frame the caller was returned is a cached one\<close>
  "caller_inv s =
     (case s of (st, rs) \<Rightarrow>
        (\<forall>n a. cache st n = Some a \<longrightarrow> a < fresh st) \<and>
        (\<forall>r\<in>set rs. r < fresh st \<and> (\<forall>n. cache st n \<noteq> Some r)))"

section \<open>Properties\<close>

subsection \<open>The partitioned file loader\<close>



lemma read_entries_Cons:
  "read_entries p (e # es) =
     (case entry_frames p e of
        Inl x \<Rightarrow> Inl x
      | Inr dfs1 \<Rightarrow> (case read_entries p es of Inl x \<Rightarrow> Inl x | Inr dfs \<Rightarrow> Inr (dfs1 @ dfs)))"
  by (cases e) (auto simp: entry_frames_def split: sum.splits)








lemma read_entries_no_match:
  "\<forall>e\<in>set es. \<not> startswith (fst e) pattern \<Longrightarrow> read_entries pattern es = Inr []"
  by (induction es) auto

lemma read_entries_append:
  "read_entries p (es1 @ es2) =
     (case read_entries p es1 of
        Inl x \<Rightarrow> Inl x
      | Inr dfs1 \<Rightarrow> (case read_entries p es2 of Inl x \<Rightarrow> Inl x | Inr dfs \<Rightarrow> Inr (dfs1 @ dfs)))"
  by (induction es1) (auto simp: read_entries_Cons simp del: read_entries.simps(2) split: sum.splits)

lemma read_members_append:
  "read_members (ms1 @ ms2) =
     (case read_members ms1 of
        Inl x \<Rightarrow> Inl x
      | Inr dfs1 \<Rightarrow> (case read_members ms2 of Inl x \<Rightarrow> Inl x | Inr dfs \<Rightarrow> Inr (dfs1 @ dfs)))"
  by (induction ms1 rule: read_members.induct) (auto split: sum.splits option.splits)

lemma read_entries_skip:
  assumes "\<not> endswith (lower fname) ''.csv''" and "\<not> endswith (lower fname) ''.zip''"
  shows "read_entries p (es1 @ (fname, f) # es2) = read_entries p (es1 @ es2)"
  using assms by (simp add: read_entries_append split: sum.splits)

lemma read_members_skip:
  assumes "\<not> endswith (lower inner_name) ''.csv''"
  shows "read_members (ms1 @ (inner_name, m) # ms2) = read_members (ms1 @ ms2)"
  using assms by (simp add: read_members_append split: sum.splits)

lemma read_entries_zip_skip:
  assumes "\<not> endswith (lower inner_name) ''.csv''"
  shows "read_entries p (es1 @ (fname, ZipArchive (ms1 @ (inner_name, m) # ms2)) # es2) =
         read_entries p (es1 @ (fname, ZipArchive (ms1 @ ms2)) # es2)"
  using assms
  by (simp add: read_entries_append read_members_skip zip_members_def read_csv_def split: sum.splits)

lemma commentary_repo_folder [simp]:
  "folders (commentary_repo es) ''commentary_data'' = Some es"
  by (simp add: commentary_repo_def init_def)

lemmas string_defs = startswith_def endswith_def lower_def lower_char_def




text \<open>
  C9. When the folder exists and no entry's name starts with the prefix,
  \<^verbatim>\<open>_load_files_by_pattern\<close> returns the empty frame \<^verbatim>\<open>pd.DataFrame()\<close>, which has no rows;
  it does not fail.
\<close>

theorem load_files_by_pattern_no_match:
  assumes "folders st subfolder = Some es"
    and "\<forall>e\<in>set es. \<not> startswith (fst e) pattern"
  shows "load_files_by_pattern st subfolder pattern = Inr empty_frame \<and> rows empty_frame = []"
  using assms by (simp add: load_files_by_pattern_def read_entries_no_match empty_frame_def)

theorem load_files_by_pattern_no_match_witness:
  "folders (commentary_repo listing_ab) ''commentary_data'' = Some listing_ab \<and>
   load_files_by_pattern (commentary_repo listing_ab) ''commentary_data'' ''commentary_2023_ENG.1''
     = Inr empty_frame \<and> rows empty_frame = []"
proof -
  have h: "\<forall>e\<in>set listing_ab. \<not> startswith (fst e) ''commentary_2023_ENG.1''"
    by (simp add: listing_ab_def startswith_def)
  from load_files_by_pattern_no_match [OF commentary_repo_folder h]
  show ?thesis by simp
qed

text \<open>
  C10. An entry whose name starts with the prefix and whose lower-cased name ends in
  neither \<^verbatim>\<open>.csv\<close> nor \<^verbatim>\<open>.zip\<close> changes nothing: the load is the load of the folder without
  it. Inside an archive that is read, a member whose lower-cased name does not end in
  \<^verbatim>\<open>.csv\<close> changes nothing either. Neither is opened, so neither can raise.
\<close>

theorem load_files_by_pattern_skips:
  "(folders st subfolder = Some (es1 @ (fname, f) # es2) \<and> startswith fname pattern \<and>
      \<not> endswith (lower fname) ''.csv'' \<and> \<not> endswith (lower fname) ''.zip'' \<longrightarrow>
      load_files_by_pattern st subfolder pattern =
      load_files_by_pattern (st\<lparr>folders := (folders st)(subfolder \<mapsto> es1 @ es2)\<rparr>) subfolder pattern) \<and>
   (folders st subfolder = Some (es1 @ (zname, ZipArchive (ms1 @ (inner_name, m) # ms2)) # es2) \<and>
      startswith zname pattern \<and> endswith (lower zname) ''.zip'' \<and>
      \<not> endswith (lower inner_name) ''.csv'' \<longrightarrow>
      load_files_by_pattern st subfolder pattern =
      load_files_by_pattern
        (st\<lparr>folders := (folders st)(subfolder \<mapsto> es1 @ (zname, ZipArchive (ms1 @ ms2)) # es2)\<rparr>)
        subfolder pattern)"
  by (simp add: load_files_by_pattern_def read_entries_skip read_entries_zip_skip)

theorem load_files_by_pattern_skips_witness:
  "load_files_by_pattern (commentary_repo listing_notes) ''commentary_data'' ''commentary_2024_ITA.1''
     = load_files_by_pattern
         (commentary_repo
            [(''commentary_2024_ITA.1_a.csv'', CsvFile commentary_a),
             (''commentary_2024_ITA.1_b.ZIP'', ZipArchive [(''b.csv'', Some commentary_b)])])
         ''commentary_data'' ''commentary_2024_ITA.1'' \<and>
   \<not> isl (load_files_by_pattern (commentary_repo listing_notes) ''commentary_data''
            ''commentary_2024_ITA.1'')"
proof -
  let ?a = "(''commentary_2024_ITA.1_a.csv'', CsvFile commentary_a)"
  let ?st = "commentary_repo listing_notes"
  let ?st1 = "commentary_repo
     [?a, (''commentary_2024_ITA.1_b.ZIP'',
           ZipArchive [(''README.md'', None), (''b.csv'', Some commentary_b)])]"
  have f1: "folders ?st ''commentary_data'' =
      Some ([?a] @ (''commentary_2024_ITA.1_notes.txt'', Unreadable) #
            [(''commentary_2024_ITA.1_b.ZIP'',
              ZipArchive [(''README.md'', None), (''b.csv'', Some commentary_b)])])"
    by (simp add: listing_notes_def)
  have c1: "startswith ''commentary_2024_ITA.1_notes.txt'' ''commentary_2024_ITA.1'' \<and>
      \<not> endswith (lower ''commentary_2024_ITA.1_notes.txt'') ''.csv'' \<and>
      \<not> endswith (lower ''commentary_2024_ITA.1_notes.txt'') ''.zip''"
    by (simp add: string_defs)
  have f2: "folders ?st1 ''commentary_data'' =
      Some ([?a] @ (''commentary_2024_ITA.1_b.ZIP'',
              ZipArchive ([] @ (''README.md'', None) # [(''b.csv'', Some commentary_b)])) # [])"
    by simp
  have c2: "startswith ''commentary_2024_ITA.1_b.ZIP'' ''commentary_2024_ITA.1'' \<and>
      endswith (lower ''commentary_2024_ITA.1_b.ZIP'') ''.zip'' \<and>
      \<not> endswith (lower ''README.md'') ''.csv''"
    by code_simp
  have s1: "load_files_by_pattern ?st ''commentary_data'' ''commentary_2024_ITA.1'' =
            load_files_by_pattern ?st1 ''commentary_data'' ''commentary_2024_ITA.1''"
    using load_files_by_pattern_skips [THEN conjunct1, rule_format, OF conjI [OF f1 c1]]
    by (simp add: load_files_by_pattern_def)
  have s2: "load_files_by_pattern ?st1 ''commentary_data'' ''commentary_2024_ITA.1'' =
            load_files_by_pattern
              (commentary_repo [?a, (''commentary_2024_ITA.1_b.ZIP'',
                   ZipArchive [(''b.csv'', Some commentary_b)])])
              ''commentary_data'' ''commentary_2024_ITA.1''"
    using load_files_by_pattern_skips [THEN conjunct2, rule_format, OF conjI [OF f2 c2]]
    by (simp add: load_files_by_pattern_def)
  have n: "\<not> isl (load_files_by_pattern ?st ''commentary_data'' ''commentary_2024_ITA.1'')"
    by code_simp
  from s1 s2 n show ?thesis by simp
qed

subsection \<open>Numbers and strings\<close>










































subsection \<open>Evaluating the conversions on literals\<close>

lemmas num_defs = id_str_def id_str_try_def py_float_def py_float_of_str_def strip_def is_space_def
  split_sign_def lower_def lower_char_def parse_number_def parse_exponent_def digits_value_def
  digit_val_def is_digit_def to_double_def pow2_le_def round_half_even_def py_int_of_float_def
  py_str_int_def py_str_def decimal_def max_str_digits_def digit_char_def bit_length.simps
  digits_of.simps Let_def py_int_of_str_def char_of_def bit_iff_odd


lemma id_str_100: "id_str (CInt 100) = Inr ''100''" "id_str (CStr ''100'') = Inr ''100''"
  "id_str (CInt 200) = Inr ''200''" "id_str (CStr ''200'') = Inr ''200''"
  by (simp_all add: num_defs)

lemma id_str_999: "id_str (CInt 999) = Inr ''999''" "id_str (CStr ''999'') = Inr ''999''"
  by (simp_all add: num_defs)


lemma year_2024: "py_int_of_str ''2024'' = Inr 2024" "digits_value ''2024'' = 2024"
  "py_str_int 2024 = Inr ''2024''"
  by (simp_all add: num_defs)

subsection \<open>The partition resolver\<close>

lemma scenario_fixtures:
  "frame_of (fixtures (scenario_repo c)) =
     (Inr fixtures_table,
      (scenario_repo c)\<lparr>cache := [''fixtures'' \<mapsto> 0],
         heap := (\<lambda>_. empty_frame)(0 := fixtures_table, Suc 0 := fixtures_table),
         fresh := Suc (Suc 0), reads := Suc 0\<rparr>)"
  by (simp add: frame_of_def fixtures_def load_base_table_def scenario_repo_def init_def
      BASE_TABLES_def read_csv_def alloc_def)

lemma scenario_candidates: "candidates fixtures_table = [''id'']"
  by (simp add: candidates_def fixtures_table_def)

lemma scenario_hit:
  "first_hit fixtures_table ''100'' [''id''] =
     Inr (Some [(''id'', CInt 100), (''season'', CStr ''2024-2025''), (''leagueId'', CStr ''ITA.1'')])"
  by (simp add: fixtures_table_def cell_at_def id_str_100)

lemma scenario_miss: "first_hit fixtures_table ''999'' [''id''] = Inr None"
  by (simp add: fixtures_table_def cell_at_def id_str_100)

lemma id_strs_none:
  "\<forall>x\<in>set xs. \<exists>s. id_str x = Inr s \<and> s \<noteq> eid \<Longrightarrow>
   \<exists>ss. id_strs xs = Inr ss \<and> eid \<notin> set ss"
proof (induction xs)
  case Nil
  then show ?case by simp
next
  case (Cons x xs)
  then obtain s ss where "id_str x = Inr s" "s \<noteq> eid" "id_strs xs = Inr ss" "eid \<notin> set ss"
    by auto
  then show ?case by simp
qed

lemma first_hit_none:
  "\<forall>c\<in>set cs. \<forall>r\<in>set (rows fx). \<exists>s. id_str (cell_at r c) = Inr s \<and> s \<noteq> eid \<Longrightarrow>
   first_hit fx eid cs = Inr None"
proof (induction cs)
  case Nil
  then show ?case by simp
next
  case (Cons c cs)
  then have "\<forall>x\<in>set (map (\<lambda>r. cell_at r c) (rows fx)). \<exists>s. id_str x = Inr s \<and> s \<noteq> eid"
    by simp
  from id_strs_none [OF this] obtain ss where
    ss: "id_strs (map (\<lambda>r. cell_at r c) (rows fx)) = Inr ss" "eid \<notin> set ss" by blast
  have "filter (\<lambda>p. snd p = eid) (zip (rows fx) ss) = []"
    using ss(2) by (auto simp: filter_empty_conv dest: set_zip_rightD)
  with Cons ss(1) show ?case by simp
qed

lemma derive_found:
  assumes "frame_of (fixtures st) = (Inr fx, st')" and "id_str event_id = Inr eid"
    and "first_hit fx eid (candidates fx) = Inr (Some r)"
  shows "derive_season_league_code pd event_id st =
     (case season_year_of pd fx r of
        Inl e \<Rightarrow> (Inl e, st')
      | Inr season_year \<Rightarrow>
          (case league_code_of pd fx r of
             Inl e \<Rightarrow> (Inl e, st')
           | Inr league_code \<Rightarrow> (Inr (season_year, league_code), st')))"
  using assms by (simp add: derive_season_league_code_def)

lemma derive_not_found:
  assumes "frame_of (fixtures st) = (Inr fx, st')" and "id_str event_id = Inr eid"
    and "first_hit fx eid (candidates fx) = Inr None"
  shows "derive_season_league_code pd event_id st = (Inl EventNotInFixtures, st')"
  using assms by (simp add: derive_season_league_code_def)

lemma for_event_error:
  "derive_season_league_code pd event_id st = (Inl e, st') \<Longrightarrow>
   for_event subfolder kind pd event_id st = (Inl e, st')"
  by (simp add: for_event_def)




text \<open>
  C6. Let the fixtures table load, let the given id have a normal form (\<^verbatim>\<open>_id_str\<close> returns
  for it, as it does for every id that is not an integer of more than 4300 digits), and
  let every value in a candidate id column the table has be normalised to a string other
  than that normal form. Then \<^verbatim>\<open>_derive_season_league_code\<close> raises the KeyError
  "event not in fixtures", and each of the five accessors raises that same error.
\<close>

theorem absent_event_not_found:
  assumes "frame_of (fixtures st) = (Inr fx, st')" and "id_str event_id = Inr eid"
    and "\<forall>c\<in>set (candidates fx). \<forall>r\<in>set (rows fx). \<exists>s. id_str (cell_at r c) = Inr s \<and> s \<noteq> eid"
  shows "fst (derive_season_league_code pd event_id st) = Inl EventNotInFixtures
    \<and> fst (commentary_for_event pd event_id st) = Inl EventNotInFixtures
    \<and> fst (key_events_for_event pd event_id st) = Inl EventNotInFixtures
    \<and> fst (lineup_for_event pd event_id st) = Inl EventNotInFixtures
    \<and> fst (player_stats_for_event pd event_id st) = Inl EventNotInFixtures
    \<and> fst (plays_for_event pd event_id st) = Inl EventNotInFixtures"
proof -
  have "first_hit fx eid (candidates fx) = Inr None"
    by (rule first_hit_none [OF assms(3)])
  then have d: "derive_season_league_code pd event_id st = (Inl EventNotInFixtures, st')"
    by (rule derive_not_found [OF assms(1,2)])
  then have "\<And>subfolder kind.
      for_event subfolder kind pd event_id st = (Inl EventNotInFixtures, st')"
    by (rule for_event_error)
  with d show ?thesis
    by (simp add: commentary_for_event_def key_events_for_event_def lineup_for_event_def
        player_stats_for_event_def plays_for_event_def)
qed

theorem absent_event_not_found_witness:
  "fst (derive_season_league_code csv_pandas (CInt 999) (scenario_repo commentary_part1))
     = Inl EventNotInFixtures
   \<and> fst (lineup_for_event csv_pandas (CInt 999) (scenario_repo commentary_part1))
     = Inl EventNotInFixtures"
proof -
  have h: "\<forall>c\<in>set (candidates fixtures_table). \<forall>r\<in>set (rows fixtures_table).
      \<exists>s. id_str (cell_at r c) = Inr s \<and> s \<noteq> ''999''"
    by (simp add: scenario_candidates) (simp add: fixtures_table_def cell_at_def id_str_100)
  from absent_event_not_found [OF scenario_fixtures id_str_999(1) h] show ?thesis by simp
qed




text \<open>
  C4, evaluated on the scenario: the fixtures row of event 100 with season
  \<^verbatim>\<open>2024-2025\<close> and league \<^verbatim>\<open>ITA.1\<close>, and \<^verbatim>\<open>commentary_2024_ITA.1_part1.csv\<close> with rows for the
  events 100 and 200. The resolver gives \<open>(2024, ITA.1)\<close> for the id \<^verbatim>\<open>"100"\<close>. The accessor
  filters with \<^verbatim>\<open>df["eventId"] == event_id\<close> on the values as stored: with the ids stored
  as numbers, \<^verbatim>\<open>commentary_for_event("100")\<close> returns no row at all; it returns the row of
  event 100 only when the given id and the stored ids are of the same type.
\<close>

theorem commentary_for_event_scenario:
  "fst (derive_season_league_code pd (CStr ''100'') (scenario_repo commentary_part1))
     = Inr (2024, Some ''ITA.1'')
   \<and> fst (commentary_for_event pd (CStr ''100'') (scenario_repo commentary_part1))
     = Inr \<lparr>columns = [''eventId'', ''text''], rows = []\<rparr>
   \<and> fst (commentary_for_event pd (CInt 100) (scenario_repo commentary_part1))
     = Inr \<lparr>columns = [''eventId'', ''text''],
           rows = [[(''eventId'', CInt 100), (''text'', CStr ''kick off'')]]\<rparr>
   \<and> fst (commentary_for_event pd (CStr ''100'') (scenario_repo commentary_part1_str))
     = Inr \<lparr>columns = [''eventId'', ''text''],
           rows = [[(''eventId'', CStr ''100''), (''text'', CStr ''kick off'')]]\<rparr>"
proof -
  let ?r = "[(''id'', CInt 100), (''season'', CStr ''2024-2025''), (''leagueId'', CStr ''ITA.1'')]"
  have s: "season_year_of pd fixtures_table ?r = Inr 2024"
    by (simp add: season_year_of_def row_str_def fixtures_table_def cell_at_def py_str_def year_2024)
  have l: "league_code_of pd fixtures_table ?r = Inr (Some ''ITA.1'')"
    by (simp add: league_code_of_def row_str_def fixtures_table_def cell_at_def py_str_def)
  have d: "derive_season_league_code pd x (scenario_repo c) =
      (Inr (2024, Some ''ITA.1''),
       (scenario_repo c)\<lparr>cache := [''fixtures'' \<mapsto> 0],
         heap := (\<lambda>_. empty_frame)(0 := fixtures_table, Suc 0 := fixtures_table),
         fresh := Suc (Suc 0), reads := Suc 0\<rparr>)"
    if "id_str x = Inr ''100''" for x c
  proof -
    have h: "first_hit fixtures_table ''100'' (candidates fixtures_table) = Inr (Some ?r)"
      by (simp only: scenario_candidates scenario_hit)
    show ?thesis unfolding derive_found [OF scenario_fixtures that h] by (simp add: s l)
  qed
  have p: "partition_prefix ''commentary'' 2024 (Some ''ITA.1'') = Inr ''commentary_2024_ITA.1''"
    by (simp add: partition_prefix_def year_2024)
  have f: "load_files_by_pattern
       ((scenario_repo c)\<lparr>cache := [''fixtures'' \<mapsto> 0],
         heap := (\<lambda>_. empty_frame)(0 := fixtures_table, Suc 0 := fixtures_table),
         fresh := Suc (Suc 0), reads := Suc 0\<rparr>) ''commentary_data'' ''commentary_2024_ITA.1''
       = Inr (pd_concat [c])" for c
    by (simp add: load_files_by_pattern_def scenario_repo_def init_def string_defs read_csv_def
        char_of_def bit_iff_odd)
  have c1: "pd_concat [commentary_part1] = commentary_part1"
    by (simp add: pd_concat_def union_columns_def commentary_part1_def pad_row_def cell_at_def)
  have c2: "pd_concat [commentary_part1_str] = commentary_part1_str"
    by (simp add: pd_concat_def union_columns_def commentary_part1_str_def pad_row_def cell_at_def)
  have a1: "fst (commentary_for_event pd (CStr ''100'') (scenario_repo commentary_part1))
     = Inr \<lparr>columns = [''eventId'', ''text''], rows = []\<rparr>"
    by (simp add: commentary_for_event_def for_event_def d id_str_100 p f c1)
       (simp add: commentary_part1_def is_empty_def cell_at_def py_eq_def)
  have a2: "fst (commentary_for_event pd (CInt 100) (scenario_repo commentary_part1))
     = Inr \<lparr>columns = [''eventId'', ''text''],
           rows = [[(''eventId'', CInt 100), (''text'', CStr ''kick off'')]]\<rparr>"
    by (simp add: commentary_for_event_def for_event_def d id_str_100 p f c1)
       (simp add: commentary_part1_def is_empty_def cell_at_def py_eq_def)
  have a3: "fst (commentary_for_event pd (CStr ''100'') (scenario_repo commentary_part1_str))
     = Inr \<lparr>columns = [''eventId'', ''text''],
           rows = [[(''eventId'', CStr ''100''), (''text'', CStr ''kick off'')]]\<rparr>"
    by (simp add: commentary_for_event_def for_event_def d id_str_100 p f c2)
       (simp add: commentary_part1_str_def is_empty_def cell_at_def py_eq_def)
  from d [of "CStr ''100''" commentary_part1] a1 a2 a3 show ?thesis by (simp add: id_str_100)
qed

subsection \<open>The base table store\<close>

lemma load_base_table_cases:
  assumes "load_base_table name st = (r, st')"
  shows "(\<exists>a. cache st name = Some a \<and> r = Inr (fresh st) \<and>
            st' = st\<lparr>heap := (heap st)(fresh st := heap st a), fresh := Suc (fresh st)\<rparr>)
       \<or> (cache st name = None \<and> isl r \<and> cache st' = cache st \<and> heap st' = heap st \<and>
            fresh st' = fresh st \<and> autocache st' = autocache st)
       \<or> (cache st name = None \<and> r = Inr (Suc (fresh st)) \<and> fresh st' = Suc (Suc (fresh st)) \<and>
            (\<exists>d. heap st' = (heap st)(fresh st := d, Suc (fresh st) := d)) \<and>
            cache st' = (if autocache st then (cache st)(name \<mapsto> fresh st) else cache st) \<and>
            autocache st' = autocache st)"
  using assms
  by (auto simp: load_base_table_def alloc_def Let_def split: option.splits sum.splits)

lemma load_base_table_hit:
  assumes "cache st name = Some c"
  shows "load_base_table name st =
     (Inr (fresh st), st\<lparr>heap := (heap st)(fresh st := heap st c), fresh := Suc (fresh st)\<rparr>)"
  using assms by (simp add: load_base_table_def alloc_def)

lemma load_keeps:
  assumes "load_base_table n st = (r, st')" and "caller_inv (st, rs)"
    and "cache st name = Some c"
  shows "cache st' name = Some c \<and> heap st' c = heap st c \<and>
         caller_inv (st', case r of Inr a \<Rightarrow> rs @ [a] | Inl e \<Rightarrow> rs)"
proof -
  have c: "c < fresh st" using assms(2,3) by (auto simp: caller_inv_def)
  from load_base_table_cases [OF assms(1)] show ?thesis
  proof (elim disjE exE conjE)
    fix a
    assume "cache st n = Some a" "r = Inr (fresh st)"
      "st' = st\<lparr>heap := (heap st)(fresh st := heap st a), fresh := Suc (fresh st)\<rparr>"
    moreover have "\<forall>m. cache st m \<noteq> Some (fresh st)"
      using assms(2) by (fastforce simp: caller_inv_def)
    ultimately show ?thesis using assms(2,3) c
      by (auto simp: caller_inv_def less_Suc_eq)
  next
    assume "cache st n = None" "isl r" "cache st' = cache st" "heap st' = heap st"
      "fresh st' = fresh st"
    then show ?thesis using assms(2,3) by (cases r) (auto simp: caller_inv_def)
  next
    fix d
    assume h: "cache st n = None" "r = Inr (Suc (fresh st))" "fresh st' = Suc (Suc (fresh st))"
      "heap st' = (heap st)(fresh st := d, Suc (fresh st) := d)"
      "cache st' = (if autocache st then (cache st)(n \<mapsto> fresh st) else cache st)"
    have ne: "n \<noteq> name" using h(1) assms(3) by auto
    have i: "\<forall>m a. cache st m = Some a \<longrightarrow> a < fresh st"
      and j: "\<forall>r\<in>set rs. r < fresh st \<and> (\<forall>m. cache st m \<noteq> Some r)"
      using assms(2) by (auto simp: caller_inv_def)
    have 1: "cache st' name = Some c" using h(5) ne assms(3) by simp
    have 2: "heap st' c = heap st c" using h(4) c by simp
    have 3: "\<forall>m a. cache st' m = Some a \<longrightarrow> a < fresh st'"
      using i h(3,5) by (auto simp: less_Suc_eq split: if_splits)
    have 4: "\<forall>x\<in>set (rs @ [Suc (fresh st)]). x < fresh st' \<and> (\<forall>m. cache st' m \<noteq> Some x)"
    proof
      fix x assume "x \<in> set (rs @ [Suc (fresh st)])"
      then consider "x \<in> set rs" | "x = Suc (fresh st)" by auto
      then show "x < fresh st' \<and> (\<forall>m. cache st' m \<noteq> Some x)"
      proof cases
        case 1
        with j have "x < fresh st" "\<forall>m. cache st m \<noteq> Some x" by auto
        then show ?thesis using h(3,5) by (auto split: if_splits)
      next
        case 2
        have "\<forall>m. cache st m \<noteq> Some (Suc (fresh st))" using i by fastforce
        then show ?thesis using 2 h(3,5) by (auto split: if_splits)
      qed
    qed
    from 1 2 3 4 show ?thesis using h(2) by (simp add: caller_inv_def)
  qed
qed

lemma mutate_keeps:
  assumes "caller_inv (st, rs)" and "cache st name = Some c" and "i < length rs"
  shows "heap (st\<lparr>heap := (heap st)(rs ! i := d)\<rparr>) c = heap st c \<and>
         caller_inv (st\<lparr>heap := (heap st)(rs ! i := d)\<rparr>, rs)"
proof -
  have "rs ! i \<in> set rs" using assms(3) by simp
  with assms(1) have "\<forall>n. cache st n \<noteq> Some (rs ! i)" by (auto simp: caller_inv_def)
  with assms(2) have "rs ! i \<noteq> c" by auto
  then show ?thesis using assms(1) by (simp add: caller_inv_def)
qed

lemma run_keeps:
  assumes "caller_inv (st, rs)" and "cache st name = Some c" and "run acts (st, rs) = (st', rs')"
  shows "cache st' name = Some c \<and> heap st' c = heap st c \<and> caller_inv (st', rs')"
  using assms
proof (induction acts arbitrary: st rs)
  case Nil
  then show ?case by simp
next
  case (Cons act acts)
  show ?case
  proof (cases act)
    case (Load n)
    obtain r st1 where l: "load_base_table n st = (r, st1)" by (cases "load_base_table n st")
    let ?rs1 = "case r of Inr a \<Rightarrow> rs @ [a] | Inl e \<Rightarrow> rs"
    from load_keeps [OF l Cons.prems(1,2)]
    have k: "cache st1 name = Some c" "heap st1 c = heap st c" "caller_inv (st1, ?rs1)" by auto
    have "run acts (st1, ?rs1) = (st', rs')"
      using Cons.prems(3) Load l by (cases r) simp_all
    from Cons.IH [OF k(3) k(1) this] k(2) show ?thesis by simp
  next
    case (Mutate i d)
    show ?thesis
    proof (cases "i < length rs")
      case True
      let ?st1 = "st\<lparr>heap := (heap st)(rs ! i := d)\<rparr>"
      from mutate_keeps [OF Cons.prems(1,2) True, of d]
      have k: "heap ?st1 c = heap st c" "caller_inv (?st1, rs)" by auto
      have c1: "cache ?st1 name = Some c" using Cons.prems(2) by simp
      have "run acts (?st1, rs) = (st', rs')" using Cons.prems(3) Mutate True by simp
      from Cons.IH [OF k(2) c1 this] k(1) show ?thesis by simp
    next
      case False
      then have "run acts (st, rs) = (st', rs')" using Cons.prems(3) Mutate by simp
      from Cons.IH [OF Cons.prems(1,2) this] show ?thesis .
    qed
  qed
qed

lemma first_load_cached:
  assumes "wf st" and "autocache st" and "load_base_table name st = (Inr a1, st1)"
  shows "\<exists>c. cache st1 name = Some c \<and> heap st1 c = heap st1 a1 \<and> caller_inv (st1, [a1])"
proof -
  have i: "\<forall>m a. cache st m = Some a \<longrightarrow> a < fresh st"
    using assms(1) by (auto simp: wf_def ran_def)
  from load_base_table_cases [OF assms(3)] show ?thesis
  proof (elim disjE exE conjE)
    fix a
    assume h: "cache st name = Some a" "Inr a1 = Inr (fresh st)"
      "st1 = st\<lparr>heap := (heap st)(fresh st := heap st a), fresh := Suc (fresh st)\<rparr>"
    have "a < fresh st" using i h(1) by blast
    moreover have "\<forall>m. cache st m \<noteq> Some (fresh st)" using i by fastforce
    ultimately show ?thesis using h i
      by (intro exI [of _ a]) (auto simp: caller_inv_def less_Suc_eq)
  next
    assume "isl (Inr a1 :: error + nat)"
    then show ?thesis by simp
  next
    fix d
    assume h: "cache st name = None" "Inr a1 = Inr (Suc (fresh st))" "fresh st1 = Suc (Suc (fresh st))"
      "heap st1 = (heap st)(fresh st := d, Suc (fresh st) := d)"
      "cache st1 = (if autocache st then (cache st)(name \<mapsto> fresh st) else cache st)"
    have "\<forall>m. cache st m \<noteq> Some (Suc (fresh st))" using i by fastforce
    then show ?thesis using h i assms(2)
      by (intro exI [of _ "fresh st"]) (auto simp: caller_inv_def less_Suc_eq)
  qed
qed

text \<open>
  C8. Let a first \<^verbatim>\<open>_load_base_table(name)\<close> succeed on a repository with caching enabled,
  returning the frame \<open>a1\<close>. Whatever the caller does next (loading tables, editing in
  place any frame it was returned), a later \<^verbatim>\<open>_load_base_table(name)\<close> succeeds, reads
  nothing from disk, and returns a new frame whose content is the content the first call
  returned.
\<close>

theorem load_base_table_cached:
  assumes "wf st" and "autocache st"
    and "load_base_table name st = (Inr a1, st1)"
    and "run acts (st1, [a1]) = (st2, rs)"
  shows "\<exists>a2 st3. load_base_table name st2 = (Inr a2, st3) \<and> reads st3 = reads st2 \<and>
           heap st3 a2 = heap st1 a1 \<and> a2 \<notin> set rs"
proof -
  from first_load_cached [OF assms(1-3)] obtain c where
    c: "cache st1 name = Some c" "heap st1 c = heap st1 a1" "caller_inv (st1, [a1])" by blast
  from run_keeps [OF c(3) c(1) assms(4)]
  have k: "cache st2 name = Some c" "heap st2 c = heap st1 c" "caller_inv (st2, rs)" by auto
  have f: "fresh st2 \<notin> set rs" using k(3) by (auto simp: caller_inv_def)
  show ?thesis
    unfolding load_base_table_hit [OF k(1)] using k(2) c(2) f by simp
qed

lemma wf_init: "wf (init bd fs ac)"
  by (simp add: wf_def init_def)

theorem load_base_table_cached_witness:
  "\<exists>a1 st1 st2 rs a2 st3.
     load_base_table ''teams'' base_repo = (Inr a1, st1) \<and> reads st1 = 1 \<and>
     run [Mutate 0 empty_frame, Load ''teams'', Mutate 1 empty_frame] (st1, [a1]) = (st2, rs) \<and>
     load_base_table ''teams'' st2 = (Inr a2, st3) \<and> reads st3 = 1 \<and>
     heap st3 a2 = \<lparr>columns = [''teamId'', ''displayName''],
                     rows = [[(''teamId'', CInt 1), (''displayName'', CStr ''Roma'')]]\<rparr>"
proof -
  let ?d = "\<lparr>columns = [''teamId'', ''displayName''],
              rows = [[(''teamId'', CInt 1), (''displayName'', CStr ''Roma'')]]\<rparr>"
  obtain st1 where l: "load_base_table ''teams'' base_repo = (Inr (Suc 0), st1)"
    and r1: "reads st1 = 1" and h1: "heap st1 (Suc 0) = ?d"
    by (simp add: load_base_table_def base_repo_def init_def BASE_TABLES_def read_csv_def alloc_def)
  obtain st2 rs where r: "run [Mutate 0 empty_frame, Load ''teams'', Mutate 1 empty_frame]
      (st1, [Suc 0]) = (st2, rs)"
    by (cases "run [Mutate 0 empty_frame, Load ''teams'', Mutate 1 empty_frame] (st1, [Suc 0])")
  have a: "autocache base_repo" by (simp add: base_repo_def init_def)
  have w: "wf base_repo" unfolding base_repo_def by (rule wf_init)
  from load_base_table_cached [OF w a l r] obtain a2 st3 where
    t: "load_base_table ''teams'' st2 = (Inr a2, st3)" "reads st3 = reads st2"
      "heap st3 a2 = heap st1 (Suc 0)" by blast
  have "reads st2 = 1"
    using r l r1
    by (auto simp: load_base_table_def base_repo_def init_def BASE_TABLES_def read_csv_def
        alloc_def Let_def split: option.splits prod.splits sum.splits)
  with l r1 r t h1 show ?thesis by auto
qed


end
